theory Spec2Isabelle
  imports Complex_Main "HOL-Library.Word"
begin

section \<open>Data model of batch\_ping.go\<close>

text \<open>
  The engine of \<^verbatim>\<open>batch_ping.go\<close> is embedded as pure functions over explicit state.
  Go's \<^verbatim>\<open>int\<close> is 64 bits wide; the counters of the program only ever grow by one per
  packet or per round, so they are modelled as unbounded \<open>int\<close>. Durations and instants are
  \<open>int\<close> nanoseconds. Debug logging has no effect on the state and is left out.
\<close>

type_synonym byte = "8 word"

datatype error =
    AddrTooMany
  | ListenFailed string
  | NewPingerFailed string
  | ParseFailed
  | InsufficientData nat
  | InvalidEchoReply
  | CloseOfClosedChannel
  | NonPositiveTicker

text \<open>
  A \<^verbatim>\<open>*icmp.PacketConn\<close> field: \<open>NotOpened\<close> is the nil pointer, the other two
  are the states of the socket the pointer refers to.
\<close>

datatype conn = NotOpened | SockOpen | SockClosed

text \<open>
  The \<^verbatim>\<open>Pinger\<close> struct is declared in a file that is not part of the sources;
  these are the fields that \<^verbatim>\<open>batch_ping.go\<close> reads, writes or passes to
  \<^verbatim>\<open>NewPinger\<close>.
\<close>

record Pinger =
  addr :: string
  pinger_id :: int
  sequence :: int
  pinger_network :: string
  PacketsSent :: int
  PacketsRecv :: int
  rtts :: "int list"

text \<open>
  The \<^verbatim>\<open>BatchPinger\<close> struct. \<open>done_ch\<close> is the channel \<^verbatim>\<open>done\<close>: nothing is
  ever sent on it, so its only state is whether it has been closed. \<open>bpid\<close> is the
  field \<^verbatim>\<open>id\<close>. The map holds pointers to pingers that are created one per key, so the
  pingers are stored by value.
\<close>

record BatchPinger =
  done_ch :: bool
  mapSeqPinger :: "int \<rightharpoonup> Pinger"
  interval :: int
  timeout :: int
  count :: int
  sendCount :: int
  source :: string
  network :: string
  bpid :: int
  conn4 :: conn
  conn6 :: conn
  addrs :: "string list"
  debug :: bool

definition Second :: int where
  "Second = 1000000000"

text \<open>\<^verbatim>\<open>NewBatchPinger\<close>; the result of \<^verbatim>\<open>getPId()\<close> is the first argument.\<close>

definition NewBatchPinger :: "int \<Rightarrow> string list \<Rightarrow> bool \<Rightarrow> error + BatchPinger" where
  "NewBatchPinger pid as privileged =
     (if length as > 65535 then Inl AddrTooMany
      else
        let nw = (if privileged then ''ip'' else ''udp'') in
        Inr \<lparr> done_ch = False,
              mapSeqPinger = Map.empty,
              interval = Second,
              timeout = Second * 100000,
              count = 5,
              sendCount = 0,
              source = [],
              network = nw,
              bpid = pid,
              conn4 = NotOpened,
              conn6 = NotOpened,
              addrs = as,
              debug = False \<rparr>)"

definition SetDebug :: "bool \<Rightarrow> BatchPinger \<Rightarrow> BatchPinger" where
  "SetDebug d bp = bp\<lparr>debug := d\<rparr>"

definition SetSource :: "string \<Rightarrow> BatchPinger \<Rightarrow> BatchPinger" where
  "SetSource s bp = bp\<lparr>source := s\<rparr>"

definition SetCount :: "int \<Rightarrow> BatchPinger \<Rightarrow> BatchPinger" where
  "SetCount c bp = bp\<lparr>count := c\<rparr>"

definition SetInterval :: "int \<Rightarrow> BatchPinger \<Rightarrow> BatchPinger" where
  "SetInterval i bp = bp\<lparr>interval := i\<rparr>"


section \<open>External collaborators\<close>

text \<open>
  What the ICMP library decodes. \<^verbatim>\<open>m.Type\<close> is an interface value holding either an
  \<^verbatim>\<open>ipv4.ICMPType\<close> or an \<^verbatim>\<open>ipv6.ICMPType\<close>; \<^verbatim>\<open>m.Body\<close> is an
  \<^verbatim>\<open>*icmp.Echo\<close> or some other body.
\<close>

datatype icmp_type = IPv4Type nat | IPv6Type nat

record echo =
  ID :: int
  Seq :: int
  Data :: "byte list"

datatype body = Echo echo | OtherBody

record message =
  Type :: icmp_type
  Code :: int
  Body :: body

definition ipv4_ICMPTypeEchoReply :: icmp_type where
  "ipv4_ICMPTypeEchoReply = IPv4Type 0"

definition ipv6_ICMPTypeEchoReply :: icmp_type where
  "ipv6_ICMPTypeEchoReply = IPv6Type 129"

text \<open>
  The functions, tables and constants that \<^verbatim>\<open>batch_ping.go\<close> uses and does not
  define, taken as parameters: the tables \<^verbatim>\<open>ipv4Proto\<close> and \<^verbatim>\<open>ipv6Proto\<close>,
  \<^verbatim>\<open>icmp.ListenPacket\<close> (only whether it fails), the address resolution inside
  \<^verbatim>\<open>NewPinger\<close>, \<^verbatim>\<open>icmp.ParseMessage\<close>, the constants \<^verbatim>\<open>protocolICMP\<close>,
  \<^verbatim>\<open>protocolIPv6ICMP\<close>, \<^verbatim>\<open>timeSliceLength\<close>, \<^verbatim>\<open>trackerLength\<close>, and
  \<^verbatim>\<open>bytesToTime\<close>.
\<close>

record env =
  ipv4Proto :: "string \<Rightarrow> string"
  ipv6Proto :: "string \<Rightarrow> string"
  ListenPacket :: "string \<Rightarrow> string \<Rightarrow> error option"
  resolve :: "string \<Rightarrow> error option"
  ParseMessage :: "int \<Rightarrow> byte list \<Rightarrow> error + message"
  protocolICMP :: int
  protocolIPv6ICMP :: int
  timeSliceLength :: nat
  trackerLength :: nat
  bytesToTime :: "byte list \<Rightarrow> int"

text \<open>
  Modelled from the spec: \<^verbatim>\<open>NewPinger\<close>, which is not part of the sources. A Target is
  created with the address as supplied by the caller, the sequence ID and the session
  ID it is given, counters at zero and no RTT samples; creation fails when the address
  does not resolve.
\<close>

definition NewPinger :: "env \<Rightarrow> string \<Rightarrow> int \<Rightarrow> int \<Rightarrow> string \<Rightarrow> error + Pinger" where
  "NewPinger e a pid seqID nw =
     (case resolve e a of
        Some err \<Rightarrow> Inl err
      | None \<Rightarrow>
          Inr \<lparr> addr = a, pinger_id = pid, sequence = seqID, pinger_network = nw,
                PacketsSent = 0, PacketsRecv = 0, rtts = [] \<rparr>)"

text \<open>
  \<^verbatim>\<open>receivedAt.Sub(timestamp)\<close>: a \<^verbatim>\<open>time.Duration\<close> is a signed 64-bit count of
  nanoseconds and \<^verbatim>\<open>Sub\<close> saturates at its limits.
\<close>

definition time_Sub :: "int \<Rightarrow> int \<Rightarrow> int" where
  "time_Sub t u = max (- (2 ^ 63)) (min (2 ^ 63 - 1) (t - u))"

section \<open>The correlator: processPacket\<close>

datatype proto = protoIpv4 | protoIpv6

record packet =
  bytes :: "byte list"
  nbytes :: int
  ttl :: int
  proto :: proto

text \<open>
  \<^verbatim>\<open>processPacket\<close>. The instant \<^verbatim>\<open>time.Now()\<close> read at entry is the argument
  \<open>receivedAt\<close>. The result is the returned error (\<open>None\<close> for \<^verbatim>\<open>nil\<close>) and the engine
  after the call.
\<close>

definition processPacket ::
  "env \<Rightarrow> int \<Rightarrow> packet \<Rightarrow> BatchPinger \<Rightarrow> error option \<times> BatchPinger" where
  "processPacket e receivedAt recv bp =
     (let pr = (if proto recv = protoIpv4 then protocolICMP e else protocolIPv6ICMP e) in
      case ParseMessage e pr (bytes recv) of
        Inl err \<Rightarrow> (Some ParseFailed, bp)
      | Inr m \<Rightarrow>
          if Type m \<noteq> ipv4_ICMPTypeEchoReply \<and> Type m \<noteq> ipv6_ICMPTypeEchoReply
          then (None, bp)
          else
            (case Body m of
               Echo pkt \<Rightarrow>
                 if ID pkt \<noteq> bpid bp then (None, bp)
                 else if length (Data pkt) < timeSliceLength e + trackerLength e
                 then (Some (InsufficientData (length (Data pkt))), bp)
                 else
                   let timestamp = bytesToTime e (take (timeSliceLength e) (Data pkt)) in
                   (case mapSeqPinger bp (Seq pkt) of
                      Some pinger \<Rightarrow>
                        (None,
                         bp\<lparr>mapSeqPinger := (mapSeqPinger bp)(Seq pkt \<mapsto>
                              pinger\<lparr>PacketsRecv := PacketsRecv pinger + 1,
                                     rtts := rtts pinger @ [time_Sub receivedAt timestamp]\<rparr>)\<rparr>)
                    | None \<Rightarrow> (None, bp))
             | OtherBody \<Rightarrow> (Some InvalidEchoReply, bp)))"

section \<open>The sender: batchSendICMP and sendICMP\<close>

text \<open>
  \<^verbatim>\<open>batchSendICMP\<close> visits every entry of the map once; for each it transmits a request
  (\<^verbatim>\<open>SendICMP\<close>, not part of the sources, writes to the network only) and increments
  \<^verbatim>\<open>PacketsSent\<close>. Every entry gets the same update, so the order of the visit does not
  show in the state.
\<close>

definition batchSendICMP :: "BatchPinger \<Rightarrow> BatchPinger" where
  "batchSendICMP bp =
     bp\<lparr>mapSeqPinger :=
          (\<lambda>k. map_option (\<lambda>pinger. pinger\<lparr>PacketsSent := PacketsSent pinger + 1\<rparr>)
                 (mapSeqPinger bp k))\<rparr>"

section \<open>The three loops as a transition system\<close>

text \<open>
  \<^verbatim>\<open>Run\<close> starts three goroutines. Their interleaving is modelled by a list of events;
  each event lets one goroutine run one iteration of its loop with the input the
  environment gives it: for a receiver the outcome of \<^verbatim>\<open>ReadFrom\<close> and the instant of
  \<^verbatim>\<open>time.Now()\<close>, for the sender the case its \<^verbatim>\<open>select\<close> takes. \<^verbatim>\<open>time.Sleep\<close> in the
  sender is a state of its own, left by the event \<open>Wake\<close>, so that the receivers can run
  during the grace period.
\<close>

datatype read_error = OpError bool | OtherError

record read_result =
  rd_bytes :: "byte list"
  rd_n :: int
  rd_cm :: "int option"
  rd_err :: "read_error option"

datatype select_case = SelDone | SelTimeout | SelInterval

datatype event =
    Recv4 read_result int
  | Recv6 read_result int
  | Send select_case
  | Wake

datatype status = Running | Sleeping | Exited

text \<open>
  The state of a run: the engine, the status of each goroutine, the local variable
  \<^verbatim>\<open>ttl\<close> of each receiver, the number of \<^verbatim>\<open>close(bp.done)\<close> operations executed so
  far, and the panic that has killed the process, if any.
\<close>

record rstate =
  eng :: BatchPinger
  st4 :: status
  st6 :: status
  stS :: status
  ttl4 :: int
  ttl6 :: int
  closes :: nat
  panic :: "error option"

text \<open>\<^verbatim>\<open>close(bp.done)\<close>: closing a closed channel panics.\<close>

definition close_done :: "rstate \<Rightarrow> rstate" where
  "close_done s =
     (if done_ch (eng s) then s\<lparr>panic := Some CloseOfClosedChannel\<rparr>
      else s\<lparr>eng := (eng s)\<lparr>done_ch := True\<rparr>, closes := closes s + 1\<rparr>)"

text \<open>One iteration of the loop of \<^verbatim>\<open>recvIpv4\<close>.\<close>

definition recvIpv4_iter :: "env \<Rightarrow> read_result \<Rightarrow> int \<Rightarrow> rstate \<Rightarrow> rstate" where
  "recvIpv4_iter e r now s =
     (if done_ch (eng s) then s\<lparr>st4 := Exited\<rparr>
      else
        let t = (case rd_cm r of Some c \<Rightarrow> c | None \<Rightarrow> ttl4 s) in
        case rd_err r of
          Some (OpError True) \<Rightarrow> s\<lparr>ttl4 := t\<rparr>
        | Some (OpError False) \<Rightarrow> s\<lparr>st4 := Exited, ttl4 := t\<rparr>
        | _ \<Rightarrow>
            let recvPkg = \<lparr>bytes = rd_bytes r, nbytes = rd_n r, ttl = t, proto = protoIpv4\<rparr> in
            s\<lparr>eng := snd (processPacket e now recvPkg (eng s)), ttl4 := t\<rparr>)"

text \<open>One iteration of the loop of \<^verbatim>\<open>recvIpv6\<close>.\<close>

definition recvIpv6_iter :: "env \<Rightarrow> read_result \<Rightarrow> int \<Rightarrow> rstate \<Rightarrow> rstate" where
  "recvIpv6_iter e r now s =
     (if done_ch (eng s) then s\<lparr>st6 := Exited\<rparr>
      else
        let t = (case rd_cm r of Some c \<Rightarrow> c | None \<Rightarrow> ttl6 s) in
        case rd_err r of
          Some (OpError True) \<Rightarrow> s\<lparr>ttl6 := t\<rparr>
        | _ \<Rightarrow>
            let recvPkg = \<lparr>bytes = rd_bytes r, nbytes = rd_n r, ttl = t, proto = protoIpv6\<rparr> in
            s\<lparr>eng := snd (processPacket e now recvPkg (eng s)), ttl6 := t\<rparr>)"

text \<open>
  One iteration of the loop of \<^verbatim>\<open>sendICMP\<close>, for the case the \<^verbatim>\<open>select\<close> takes. The
  case \<^verbatim>\<open><-bp.done\<close> can only be taken when the channel is closed.
\<close>

definition sendICMP_iter :: "select_case \<Rightarrow> rstate \<Rightarrow> rstate" where
  "sendICMP_iter c s =
     (case c of
        SelDone \<Rightarrow> (if done_ch (eng s) then s\<lparr>stS := Exited\<rparr> else s)
      | SelTimeout \<Rightarrow>
          (let s' = close_done s in
           if panic s' = None then s'\<lparr>stS := Exited\<rparr> else s')
      | SelInterval \<Rightarrow>
          (let b = batchSendICMP (eng s);
               b' = b\<lparr>sendCount := sendCount b + 1\<rparr>
           in if sendCount b' \<ge> count b' then s\<lparr>eng := b', stS := Sleeping\<rparr>
              else s\<lparr>eng := b'\<rparr>))"

text \<open>
  The end of \<^verbatim>\<open>time.Sleep(bp.interval)\<close> on the count path: close the channel and
  return.
\<close>

definition sendICMP_wake :: "rstate \<Rightarrow> rstate" where
  "sendICMP_wake s =
     (let s' = close_done s in
      if panic s' = None then s'\<lparr>stS := Exited\<rparr> else s')"

definition step :: "env \<Rightarrow> event \<Rightarrow> rstate \<Rightarrow> rstate" where
  "step e ev s =
     (if panic s \<noteq> None then s
      else
        case ev of
          Recv4 r now \<Rightarrow> (if st4 s = Running then recvIpv4_iter e r now s else s)
        | Recv6 r now \<Rightarrow> (if st6 s = Running then recvIpv6_iter e r now s else s)
        | Send c \<Rightarrow> (if stS s = Running then sendICMP_iter c s else s)
        | Wake \<Rightarrow> (if stS s = Sleeping then sendICMP_wake s else s))"

fun run_loops :: "env \<Rightarrow> event list \<Rightarrow> rstate \<Rightarrow> rstate" where
  "run_loops e [] s = s"
| "run_loops e (ev # evs) s = run_loops e evs (step e ev s)"

text \<open>
  The state in which the three goroutines start. \<^verbatim>\<open>sendICMP\<close> first creates its two
  tickers, and \<^verbatim>\<open>time.NewTicker\<close> panics on a duration that is not positive.
\<close>

definition spawn :: "BatchPinger \<Rightarrow> rstate" where
  "spawn bp =
     \<lparr> eng = bp, st4 = Running, st6 = Running, stS = Running, ttl4 = 0, ttl6 = 0,
       closes = 0,
       panic = (if timeout bp \<le> 0 \<or> interval bp \<le> 0 then Some NonPositiveTicker else None) \<rparr>"

section \<open>Run\<close>

text \<open>
  The loop of \<^verbatim>\<open>Run\<close> over \<^verbatim>\<open>bp.addrs\<close>; \<open>seqID\<close> is the value of the variable before
  the iteration. On a failure of \<^verbatim>\<open>NewPinger\<close> the error is returned with the engine as
  it is then.
\<close>

fun build_targets :: "env \<Rightarrow> string list \<Rightarrow> int \<Rightarrow> BatchPinger \<Rightarrow> error option \<times> BatchPinger" where
  "build_targets e [] seqID bp = (None, bp)"
| "build_targets e (a # as) seqID bp =
     (let seqID' = seqID + 1 in
      case NewPinger e a (bpid bp) seqID' (network bp) of
        Inl err \<Rightarrow> (Some err, bp)
      | Inr pinger \<Rightarrow>
          build_targets e as seqID' (bp\<lparr>mapSeqPinger := (mapSeqPinger bp)(seqID' \<mapsto> pinger)\<rparr>))"

text \<open>
  How a call of \<^verbatim>\<open>Run\<close> ends: it returns (with its error, if any), the process panics,
  or the events run out while \<^verbatim>\<open>wg.Wait()\<close> is still blocked. Each carries the engine
  as it is then.
\<close>

datatype run_result =
    Returned "error option" BatchPinger
  | Panicked error BatchPinger
  | Waiting BatchPinger

text \<open>
  \<^verbatim>\<open>Run\<close>. The two deferred \<^verbatim>\<open>Close\<close> calls are registered after the loop over the
  addresses, and run when \<^verbatim>\<open>wg.Wait()\<close> has returned. The two calls of
  \<^verbatim>\<open>SetControlMessage\<close> and the calls of \<^verbatim>\<open>SetConns\<close> only configure the sockets and
  hand them to the pingers; they change nothing that is modelled.
\<close>

definition Run :: "env \<Rightarrow> event list \<Rightarrow> BatchPinger \<Rightarrow> run_result" where
  "Run e evs bp =
     (case ListenPacket e (ipv4Proto e (network bp)) (source bp) of
        Some err \<Rightarrow> Returned (Some err) (bp\<lparr>conn4 := NotOpened\<rparr>)
      | None \<Rightarrow>
          (let bp1 = bp\<lparr>conn4 := SockOpen\<rparr> in
           (case ListenPacket e (ipv6Proto e (network bp1)) (source bp1) of
              Some err \<Rightarrow> Returned (Some err) (bp1\<lparr>conn6 := NotOpened\<rparr>)
            | None \<Rightarrow>
                (let bp2 = bp1\<lparr>conn6 := SockOpen\<rparr> in
                 (case build_targets e (addrs bp2) 0 bp2 of
                    (Some err, bp3) \<Rightarrow> Returned (Some err) bp3
                  | (None, bp3) \<Rightarrow>
                      (let s = run_loops e evs (spawn bp3) in
                       (case panic s of
                          Some p \<Rightarrow> Panicked p (eng s)
                        | None \<Rightarrow>
                            (if st4 s = Exited \<and> st6 s = Exited \<and> stS s = Exited
                             then Returned None
                                    ((eng s)\<lparr>conn6 := SockClosed, conn4 := SockClosed\<rparr>)
                             else Waiting (eng s)))))))))"

section \<open>Statistics\<close>

text \<open>
  Modelled from the spec: the statistics of one Target (\<^verbatim>\<open>Pinger.Statistics\<close> is not
  part of the sources): the address, packets sent, packets received, the loss fraction
  (sent - received) / sent, which is 0 when sent is 0, and the RTT samples. The loss
  fraction is an exact rational. The summary of the samples (minimum, average, maximum,
  standard deviation) is left out.
\<close>

record statistics =
  st_addr :: string
  st_sent :: int
  st_recv :: int
  st_loss :: rat
  st_rtts :: "int list"

definition pinger_Statistics :: "Pinger \<Rightarrow> statistics" where
  "pinger_Statistics p =
     \<lparr> st_addr = addr p,
       st_sent = PacketsSent p,
       st_recv = PacketsRecv p,
       st_loss = (if PacketsSent p = 0 then 0
                  else of_int (PacketsSent p - PacketsRecv p) / of_int (PacketsSent p)),
       st_rtts = rtts p \<rparr>"

text \<open>
  \<^verbatim>\<open>BatchPinger.Statistics\<close>. Go visits the entries of a map in an order of its own
  choosing; \<open>order\<close> is the list of keys in the order of the visit. \<^verbatim>\<open>Finish\<close> only
  passes the result to the callback \<^verbatim>\<open>OnFinish\<close> of the caller.
\<close>

fun Statistics_loop ::
  "int list \<Rightarrow> BatchPinger \<Rightarrow> (string \<rightharpoonup> statistics) \<Rightarrow> (string \<rightharpoonup> statistics)" where
  "Statistics_loop [] bp stMap = stMap"
| "Statistics_loop (k # ks) bp stMap =
     (case mapSeqPinger bp k of
        Some pinger \<Rightarrow> Statistics_loop ks bp (stMap(addr pinger \<mapsto> pinger_Statistics pinger))
      | None \<Rightarrow> Statistics_loop ks bp stMap)"

definition Statistics :: "int list \<Rightarrow> BatchPinger \<Rightarrow> (string \<rightharpoonup> statistics)" where
  "Statistics order bp = Statistics_loop order bp Map.empty"

section \<open>Auxiliary definitions\<close>


text \<open>
  The sequence number that \<^verbatim>\<open>processPacket\<close> looks up for a packet: defined when the
  packet parses to an echo reply with an echo body, the identifier of the engine and a
  payload of at least \<^verbatim>\<open>timeSliceLength + trackerLength\<close> bytes.
\<close>

definition accepted_seq :: "env \<Rightarrow> int \<Rightarrow> proto \<Rightarrow> byte list \<Rightarrow> int option" where
  "accepted_seq e pid pr bs =
     (case ParseMessage e (if pr = protoIpv4 then protocolICMP e else protocolIPv6ICMP e) bs of
        Inl err \<Rightarrow> None
      | Inr m \<Rightarrow>
          if Type m \<noteq> ipv4_ICMPTypeEchoReply \<and> Type m \<noteq> ipv6_ICMPTypeEchoReply then None
          else
            (case Body m of
               Echo pkt \<Rightarrow>
                 if ID pkt \<noteq> pid then None
                 else if length (Data pkt) < timeSliceLength e + trackerLength e then None
                 else Some (Seq pkt)
             | OtherBody \<Rightarrow> None))"

text \<open>
  An event credits the Target with sequence number \<open>q\<close> when it is a read that the
  receiver hands to \<^verbatim>\<open>processPacket\<close> and whose packet is accepted with that sequence
  number.
\<close>

fun credits :: "env \<Rightarrow> int \<Rightarrow> int \<Rightarrow> event \<Rightarrow> bool" where
  "credits e pid q (Recv4 r now) =
     ((case rd_err r of Some (OpError t) \<Rightarrow> False | _ \<Rightarrow> True)
      \<and> accepted_seq e pid protoIpv4 (rd_bytes r) = Some q)"
| "credits e pid q (Recv6 r now) =
     (rd_err r \<noteq> Some (OpError True) \<and> accepted_seq e pid protoIpv6 (rd_bytes r) = Some q)"
| "credits e pid q (Send c) = False"
| "credits e pid q Wake = False"

section \<open>A concrete environment\<close>

text \<open>
  An environment, an engine and packets on which the model is evaluated. The decoder
  \<open>demo_parse\<close> reads the message type, the identifier and the sequence number from the
  first three bytes and takes the rest as payload. \<open>demo_bp\<close> is what
  \<^verbatim>\<open>NewBatchPinger\<close> returns for process 7 and the addresses a, b, a; \<open>demo_bp3\<close>
  is that engine when \<^verbatim>\<open>Run\<close> has opened the sockets and built the Targets.
  \<open>demo_bp_closed\<close> and \<open>demo_bp3_closed\<close> are the same two engines with the channel
  already closed, as a first \<^verbatim>\<open>Run\<close> leaves it.
\<close>

definition demo_parse :: "int \<Rightarrow> byte list \<Rightarrow> error + message" where
  "demo_parse pr bs =
     (case bs of
        t # i # q # d \<Rightarrow>
          Inr \<lparr> Type = (if pr = 1 then IPv4Type (unat t) else IPv6Type (unat t)),
                Code = 0,
                Body = Echo \<lparr>ID = uint i, Seq = uint q, Data = d\<rparr> \<rparr>
      | _ \<Rightarrow> Inl ParseFailed)"

definition demo_env :: env where
  "demo_env =
     \<lparr> ipv4Proto = (\<lambda>n. if n = ''ip'' then ''ip4:icmp'' else ''udp4''),
       ipv6Proto = (\<lambda>n. if n = ''ip'' then ''ip6:ipv6-icmp'' else ''udp6''),
       ListenPacket = (\<lambda>n s. None),
       resolve = (\<lambda>a. None),
       ParseMessage = demo_parse,
       protocolICMP = 1,
       protocolIPv6ICMP = 58,
       timeSliceLength = 8,
       trackerLength = 8,
       bytesToTime = (\<lambda>bs. 0) \<rparr>"

definition demo_env_no6 :: env where
  "demo_env_no6 =
     demo_env\<lparr>ListenPacket := (\<lambda>n s. if n = ''udp6'' then Some (ListenFailed n) else None)\<rparr>"

definition demo_env_unresolved :: env where
  "demo_env_unresolved =
     demo_env\<lparr>resolve := (\<lambda>a. if a = ''b'' then Some (NewPingerFailed a) else None)\<rparr>"

definition demo_bp :: BatchPinger where
  "demo_bp =
     \<lparr> done_ch = False, mapSeqPinger = Map.empty, interval = Second,
       timeout = Second * 100000, count = 5, sendCount = 0, source = [],
       network = ''udp'', bpid = 7, conn4 = NotOpened, conn6 = NotOpened,
       addrs = [''a'', ''b'', ''a''], debug = False \<rparr>"


definition demo_pinger :: "string \<Rightarrow> int \<Rightarrow> Pinger" where
  "demo_pinger a q =
     \<lparr> addr = a, pinger_id = 7, sequence = q, pinger_network = ''udp'',
       PacketsSent = 0, PacketsRecv = 0, rtts = [] \<rparr>"

definition demo_bp3 :: BatchPinger where
  "demo_bp3 =
     demo_bp\<lparr> conn4 := SockOpen, conn6 := SockOpen,
              mapSeqPinger := [1 \<mapsto> demo_pinger ''a'' 1, 2 \<mapsto> demo_pinger ''b'' 2,
                               3 \<mapsto> demo_pinger ''a'' 3] \<rparr>"


definition demo_reply :: "byte \<Rightarrow> byte \<Rightarrow> read_result" where
  "demo_reply i q =
     \<lparr> rd_bytes = [0, i, q] @ replicate 16 0, rd_n = 19, rd_cm = None, rd_err = None \<rparr>"

definition demo_read_failure :: read_result where
  "demo_read_failure =
     \<lparr> rd_bytes = replicate 512 0, rd_n = 0, rd_cm = None, rd_err = Some (OpError False) \<rparr>"

definition demo_packet :: "byte \<Rightarrow> byte \<Rightarrow> byte list \<Rightarrow> packet" where
  "demo_packet i q d = \<lparr> bytes = [0, i, q] @ d, nbytes = 3 + int (length d), ttl = 64, proto = protoIpv4 \<rparr>"

section \<open>Properties of the loops\<close>

lemmas demo_defs = demo_env_def demo_parse_def demo_bp_def demo_bp3_def demo_pinger_def
  demo_reply_def demo_read_failure_def Second_def
  demo_env_no6_def demo_env_unresolved_def demo_packet_def

lemmas model_defs = spawn_def step_def recvIpv4_iter_def recvIpv6_iter_def
  sendICMP_iter_def sendICMP_wake_def close_done_def batchSendICMP_def processPacket_def
  NewPinger_def time_Sub_def ipv4_ICMPTypeEchoReply_def ipv6_ICMPTypeEchoReply_def Let_def

lemma demo_bp_created: "NewBatchPinger 7 [''a'', ''b'', ''a''] False = Inr demo_bp"
  by (simp add: NewBatchPinger_def demo_bp_def)

lemma processPacket_frame:
  "done_ch (snd (processPacket e now r b)) = done_ch b"
  "bpid (snd (processPacket e now r b)) = bpid b"
  "sendCount (snd (processPacket e now r b)) = sendCount b"
  "count (snd (processPacket e now r b)) = count b"
  by (simp_all add: processPacket_def Let_def split: sum.splits body.splits option.splits)



lemma step_bpid: "bpid (eng (step e ev s)) = bpid (eng s)"
  by (cases ev)
     (auto simp: step_def recvIpv4_iter_def recvIpv6_iter_def processPacket_frame
        sendICMP_iter_def sendICMP_wake_def close_done_def batchSendICMP_def Let_def
        split: select_case.splits option.splits read_error.splits bool.splits)

lemma processPacket_counters:
  assumes "mapSeqPinger b q = Some p"
  shows "\<exists>p'. mapSeqPinger (snd (processPacket e now r b)) q = Some p'
           \<and> PacketsSent p' = PacketsSent p
           \<and> PacketsRecv p' =
               PacketsRecv p + (if accepted_seq e (bpid b) (proto r) (bytes r) = Some q then 1 else 0)
           \<and> addr p' = addr p \<and> sequence p' = sequence p"
  using assms
  by (auto simp: processPacket_def accepted_seq_def Let_def
      split: sum.splits body.splits option.splits)

lemma processPacket_dom:
  "mapSeqPinger b q = None \<Longrightarrow> mapSeqPinger (snd (processPacket e now r b)) q = None"
  by (auto simp: processPacket_def Let_def split: sum.splits body.splits option.splits)

lemma step_counters:
  assumes "mapSeqPinger (eng s) q = Some p"
  shows "\<exists>p'. mapSeqPinger (eng (step e ev s)) q = Some p'
           \<and> PacketsSent p' = PacketsSent p + (sendCount (eng (step e ev s)) - sendCount (eng s))
           \<and> PacketsRecv p \<le> PacketsRecv p'
           \<and> PacketsRecv p' \<le> PacketsRecv p + (if credits e (bpid (eng s)) q ev then 1 else 0)
           \<and> addr p' = addr p \<and> sequence p' = sequence p"
proof (cases ev)
  case (Recv4 r now)
  show ?thesis
    using processPacket_counters [OF assms, of e now
        "\<lparr>bytes = rd_bytes r, nbytes = rd_n r,
          ttl = (case rd_cm r of Some c \<Rightarrow> c | None \<Rightarrow> ttl4 s), proto = protoIpv4\<rparr>"] assms
    by (auto simp: Recv4 step_def recvIpv4_iter_def processPacket_frame Let_def
        split: option.splits read_error.splits bool.splits)
next
  case (Recv6 r now)
  show ?thesis
    using processPacket_counters [OF assms, of e now
        "\<lparr>bytes = rd_bytes r, nbytes = rd_n r,
          ttl = (case rd_cm r of Some c \<Rightarrow> c | None \<Rightarrow> ttl6 s), proto = protoIpv6\<rparr>"] assms
    by (auto simp: Recv6 step_def recvIpv6_iter_def processPacket_frame Let_def
        split: option.splits read_error.splits bool.splits)
next
  case (Send c)
  show ?thesis
    using assms
    by (auto simp: Send step_def sendICMP_iter_def close_done_def batchSendICMP_def Let_def
        split: select_case.splits)
next
  case Wake
  show ?thesis
    using assms by (auto simp: Wake step_def sendICMP_wake_def close_done_def Let_def)
qed

lemma run_counters:
  assumes "mapSeqPinger (eng s) q = Some p"
  shows "\<exists>p'. mapSeqPinger (eng (run_loops e evs s)) q = Some p'
           \<and> PacketsSent p' = PacketsSent p + (sendCount (eng (run_loops e evs s)) - sendCount (eng s))
           \<and> PacketsRecv p \<le> PacketsRecv p'
           \<and> PacketsRecv p' \<le> PacketsRecv p + int (length (filter (credits e (bpid (eng s)) q) evs))
           \<and> addr p' = addr p \<and> sequence p' = sequence p"
  using assms
proof (induction evs arbitrary: s p)
  case Nil
  then show ?case by simp
next
  case (Cons ev evs)
  from step_counters [OF Cons.prems, of e ev]
  obtain p1 where p1: "mapSeqPinger (eng (step e ev s)) q = Some p1"
    and s1: "PacketsSent p1 = PacketsSent p + (sendCount (eng (step e ev s)) - sendCount (eng s))"
    and r1: "PacketsRecv p \<le> PacketsRecv p1"
    and r2: "PacketsRecv p1 \<le> PacketsRecv p + (if credits e (bpid (eng s)) q ev then 1 else 0)"
    and a1: "addr p1 = addr p" "sequence p1 = sequence p"
    by blast
  from Cons.IH [OF p1]
  obtain p' where p': "mapSeqPinger (eng (run_loops e evs (step e ev s))) q = Some p'"
    and s2: "PacketsSent p' = PacketsSent p1
               + (sendCount (eng (run_loops e evs (step e ev s))) - sendCount (eng (step e ev s)))"
    and r3: "PacketsRecv p1 \<le> PacketsRecv p'"
    and r4: "PacketsRecv p' \<le> PacketsRecv p1
               + int (length (filter (credits e (bpid (eng (step e ev s))) q) evs))"
    and a2: "addr p' = addr p1" "sequence p' = sequence p1"
    by blast
  show ?case
    using p' s1 s2 r1 r2 r3 r4 a1 a2 by (auto simp: step_bpid split: if_splits)
qed

lemma step_none:
  "mapSeqPinger (eng s) q = None \<Longrightarrow> mapSeqPinger (eng (step e ev s)) q = None"
  by (cases ev)
     (auto simp: step_def recvIpv4_iter_def recvIpv6_iter_def processPacket_dom
        sendICMP_iter_def sendICMP_wake_def close_done_def batchSendICMP_def Let_def
        split: select_case.splits option.splits read_error.splits bool.splits)

lemma run_none:
  "mapSeqPinger (eng s) q = None \<Longrightarrow> mapSeqPinger (eng (run_loops e evs s)) q = None"
  by (induction evs arbitrary: s) (simp_all add: step_none)

lemma run_targets:
  "rel_option (\<lambda>p p'. addr p' = addr p \<and> sequence p' = sequence p)
     (mapSeqPinger (eng s) q) (mapSeqPinger (eng (run_loops e evs s)) q)"
proof (cases "mapSeqPinger (eng s) q")
  case None
  then show ?thesis by (simp add: run_none)
next
  case (Some p)
  from run_counters [OF Some, of e evs] show ?thesis
    using Some by auto
qed

subsection \<open>The gate\<close>







subsection \<open>The set-up of Run\<close>

lemma build_targets_frame:
  "build_targets e as k bp = (r, bp') \<Longrightarrow> addrs bp' = addrs bp \<and> bpid bp' = bpid bp
     \<and> conn4 bp' = conn4 bp \<and> conn6 bp' = conn6 bp \<and> done_ch bp' = done_ch bp"
  by (induction as arbitrary: k bp) (auto simp: Let_def split: sum.splits)

lemma build_targets_ok:
  assumes "build_targets e as k bp = (None, bp')"
  shows "(\<forall>i<length as. \<exists>p. mapSeqPinger bp' (k + 1 + int i) = Some p
             \<and> addr p = as ! i \<and> sequence p = k + 1 + int i)
         \<and> (\<forall>j. j \<le> k \<or> k + int (length as) < j \<longrightarrow> mapSeqPinger bp' j = mapSeqPinger bp j)"
  using assms
proof (induction as arbitrary: k bp)
  case Nil
  then show ?case by simp
next
  case (Cons a as)
  from Cons.prems obtain p where np: "NewPinger e a (bpid bp) (k + 1) (network bp) = Inr p"
    and rest: "build_targets e as (k + 1)
                 (bp\<lparr>mapSeqPinger := (mapSeqPinger bp)(k + 1 \<mapsto> p)\<rparr>) = (None, bp')"
    by (auto simp: Let_def split: sum.splits)
  from np have pa: "addr p = a" "sequence p = k + 1"
    by (auto simp: NewPinger_def split: option.splits)
  note ih = Cons.IH [OF rest]
  have far: "\<And>j. j \<le> k + 1 \<or> k + 1 + int (length as) < j \<Longrightarrow>
               mapSeqPinger bp' j = ((mapSeqPinger bp)(k + 1 \<mapsto> p)) j"
    using ih by auto
  have first: "\<forall>i<length (a # as). \<exists>p. mapSeqPinger bp' (k + 1 + int i) = Some p
                 \<and> addr p = (a # as) ! i \<and> sequence p = k + 1 + int i"
  proof (intro allI impI)
    fix i assume i: "i < length (a # as)"
    show "\<exists>p. mapSeqPinger bp' (k + 1 + int i) = Some p
                 \<and> addr p = (a # as) ! i \<and> sequence p = k + 1 + int i"
    proof (cases i)
      case 0
      then show ?thesis using far [of "k + 1"] pa by simp
    next
      case (Suc n)
      with i have "n < length as" by simp
      with ih obtain p' where "mapSeqPinger bp' (k + 1 + 1 + int n) = Some p'"
        "addr p' = as ! n" "sequence p' = k + 1 + 1 + int n"
        by blast
      then show ?thesis using Suc by (simp add: add.assoc)
    qed
  qed
  have second: "\<forall>j. j \<le> k \<or> k + int (length (a # as)) < j \<longrightarrow>
                  mapSeqPinger bp' j = mapSeqPinger bp j"
  proof (intro allI impI)
    fix j assume "j \<le> k \<or> k + int (length (a # as)) < j"
    then have "j \<le> k + 1 \<or> k + 1 + int (length as) < j" and "j \<noteq> k + 1"
      by auto
    then show "mapSeqPinger bp' j = mapSeqPinger bp j"
      using far [of j] by simp
  qed
  from first second show ?case by blast
qed

lemma Run_targets:
  assumes "mapSeqPinger bp = Map.empty"
      and "Run e evs bp = Returned None b \<or> Run e evs bp = Waiting b"
  shows "(\<forall>i<length (addrs bp). \<exists>p. mapSeqPinger b (int i + 1) = Some p
             \<and> addr p = addrs bp ! i \<and> sequence p = int i + 1)
         \<and> (\<forall>j. j \<le> 0 \<or> int (length (addrs bp)) < j \<longrightarrow> mapSeqPinger b j = None)"
proof -
  let ?bp2 = "bp\<lparr>conn4 := SockOpen, conn6 := SockOpen\<rparr>"
  from assms(2) obtain bp3 where
    bt: "build_targets e (addrs bp) 0 ?bp2 = (None, bp3)"
    and b: "mapSeqPinger b = mapSeqPinger (eng (run_loops e evs (spawn bp3)))"
    by (auto simp: Run_def Let_def split: option.splits prod.splits if_splits)
  from build_targets_ok [OF bt]
  have ok1: "\<forall>i<length (addrs bp). \<exists>p. mapSeqPinger bp3 (int i + 1) = Some p
               \<and> addr p = addrs bp ! i \<and> sequence p = int i + 1"
    by (simp add: add.commute)
  from build_targets_ok [OF bt]
  have ok2: "\<forall>j. j \<le> 0 \<or> int (length (addrs bp)) < j \<longrightarrow> mapSeqPinger bp3 j = None"
    using assms(1) by simp
  have rel: "\<And>q. rel_option (\<lambda>p p'. addr p' = addr p \<and> sequence p' = sequence p)
               (mapSeqPinger bp3 q) (mapSeqPinger b q)"
    using run_targets [of "spawn bp3" _ e evs] by (simp add: b spawn_def)
  have one: "\<forall>i<length (addrs bp). \<exists>p. mapSeqPinger b (int i + 1) = Some p
             \<and> addr p = addrs bp ! i \<and> sequence p = int i + 1"
  proof (intro allI impI)
    fix i assume "i < length (addrs bp)"
    with ok1 obtain p where "mapSeqPinger bp3 (int i + 1) = Some p" "addr p = addrs bp ! i"
      "sequence p = int i + 1"
      by blast
    with rel [of "int i + 1"] show "\<exists>p. mapSeqPinger b (int i + 1) = Some p
             \<and> addr p = addrs bp ! i \<and> sequence p = int i + 1"
      by (auto simp: option_rel_Some1)
  qed
  have two: "\<forall>j. j \<le> 0 \<or> int (length (addrs bp)) < j \<longrightarrow> mapSeqPinger b j = None"
  proof (intro allI impI)
    fix j assume "j \<le> 0 \<or> int (length (addrs bp)) < j"
    with ok2 have "mapSeqPinger bp3 j = None"
      by blast
    with rel [of j] show "mapSeqPinger b j = None"
      by simp
  qed
  from one two show ?thesis by blast
qed

lemma targets_key:
  assumes "\<forall>i<n. \<exists>p. m (int i + 1) = Some p \<and> addr p = as ! i \<and> sequence p = int i + 1"
      and "\<forall>j. j \<le> 0 \<or> int n < j \<longrightarrow> m j = None"
      and "m k = Some p"
  shows "1 \<le> k \<and> k \<le> int n \<and> sequence p = k \<and> addr p = as ! nat (k - 1)"
proof -
  from assms(2,3) have r: "1 \<le> k" "k \<le> int n"
    by (auto simp: not_less [symmetric])
  then have "nat (k - 1) < n" and "int (nat (k - 1)) + 1 = k" by auto
  with assms(1,3) show ?thesis using r by (metis option.inject)
qed

lemma Run_dom:
  assumes "mapSeqPinger bp = Map.empty"
      and "Run e evs bp = Returned None b \<or> Run e evs bp = Waiting b"
  shows "dom (mapSeqPinger b) = {1..int (length (addrs bp))}"
proof -
  note t = Run_targets [OF assms]
  from t have one: "\<forall>i<length (addrs bp). \<exists>p. mapSeqPinger b (int i + 1) = Some p
             \<and> addr p = addrs bp ! i \<and> sequence p = int i + 1"
    and out: "\<forall>j. j \<le> 0 \<or> int (length (addrs bp)) < j \<longrightarrow> mapSeqPinger b j = None"
    by blast+
  show ?thesis
  proof
    show "dom (mapSeqPinger b) \<subseteq> {1..int (length (addrs bp))}"
      using targets_key [OF one out] by auto
    show "{1..int (length (addrs bp))} \<subseteq> dom (mapSeqPinger b)"
    proof
      fix k assume "k \<in> {1..int (length (addrs bp))}"
      then have "nat (k - 1) < length (addrs bp)" and "int (nat (k - 1)) + 1 = k" by auto
      with one show "k \<in> dom (mapSeqPinger b)" by (metis domI)
    qed
  qed
qed

lemma Run_returns:
  assumes "ListenPacket e (ipv4Proto e (network bp)) (source bp) = None"
      and "ListenPacket e (ipv6Proto e (network bp)) (source bp) = None"
      and "build_targets e (addrs bp) 0 (bp\<lparr>conn4 := SockOpen, conn6 := SockOpen\<rparr>) = (None, bp3)"
      and "panic (run_loops e evs (spawn bp3)) = None"
      and "st4 (run_loops e evs (spawn bp3)) = Exited"
      and "st6 (run_loops e evs (spawn bp3)) = Exited"
      and "stS (run_loops e evs (spawn bp3)) = Exited"
  shows "Run e evs bp =
           Returned None ((eng (run_loops e evs (spawn bp3)))\<lparr>conn6 := SockClosed, conn4 := SockClosed\<rparr>)"
  using assms by (simp add: Run_def Let_def)

lemma Run_waits:
  assumes "ListenPacket e (ipv4Proto e (network bp)) (source bp) = None"
      and "ListenPacket e (ipv6Proto e (network bp)) (source bp) = None"
      and "build_targets e (addrs bp) 0 (bp\<lparr>conn4 := SockOpen, conn6 := SockOpen\<rparr>) = (None, bp3)"
      and "panic (run_loops e evs (spawn bp3)) = None"
      and "stS (run_loops e evs (spawn bp3)) \<noteq> Exited"
  shows "Run e evs bp = Waiting (eng (run_loops e evs (spawn bp3)))"
  using assms by (simp add: Run_def Let_def)

lemma demo_setup:
  "ListenPacket demo_env (ipv4Proto demo_env (network demo_bp)) (source demo_bp) = None"
  "ListenPacket demo_env (ipv6Proto demo_env (network demo_bp)) (source demo_bp) = None"
  "build_targets demo_env (addrs demo_bp) 0 (demo_bp\<lparr>conn4 := SockOpen, conn6 := SockOpen\<rparr>)
     = (None, demo_bp3)"
  by (simp_all add: demo_defs NewPinger_def)




lemma Run_normal_completion_closes_sockets:
  "Run e evs bp = Returned None b \<Longrightarrow> conn4 b = SockClosed \<and> conn6 b = SockClosed"
  by (auto simp: Run_def Let_def split: option.splits prod.splits if_splits)

lemma Run_ipv4_listen_failure:
  "ListenPacket e (ipv4Proto e (network bp)) (source bp) = Some err \<Longrightarrow>
     Run e evs bp = Returned (Some err) (bp\<lparr>conn4 := NotOpened\<rparr>)"
  by (simp add: Run_def)

subsection \<open>The correlator\<close>

text \<open>
  What \<^verbatim>\<open>processPacket\<close> does with an echo body whose sequence number is not a key of the
  map, for a payload of any length: the check of the payload length comes before the
  lookup.
\<close>

lemma unknown_seq_result:
  assumes "ParseMessage e (if proto recv = protoIpv4 then protocolICMP e else protocolIPv6ICMP e)
             (bytes recv) = Inr m"
      and "Body m = Echo pkt"
      and "mapSeqPinger bp (Seq pkt) = None"
  shows "snd (processPacket e receivedAt recv bp) = bp
         \<and> fst (processPacket e receivedAt recv bp) =
             (if (Type m = ipv4_ICMPTypeEchoReply \<or> Type m = ipv6_ICMPTypeEchoReply)
                 \<and> ID pkt = bpid bp
                 \<and> length (Data pkt) < timeSliceLength e + trackerLength e
              then Some (InsufficientData (length (Data pkt))) else None)"
  using assms by (simp add: processPacket_def Let_def)

subsection \<open>The receivers\<close>

lemma recvIpv4_exits_on_read_error:
  assumes "panic s = None" and "st4 s = Running" and "\<not> done_ch (eng s)"
      and "rd_err r = Some (OpError False)"
  shows "st4 (step e (Recv4 r now) s) = Exited
         \<and> eng (step e (Recv4 r now) s) = eng s
         \<and> st6 (step e (Recv4 r now) s) = st6 s \<and> stS (step e (Recv4 r now) s) = stS s"
  using assms by (simp add: step_def recvIpv4_iter_def Let_def)

lemma recv_continues_on_timeout:
  assumes "panic s = None" and "\<not> done_ch (eng s)" and "rd_err r = Some (OpError True)"
  shows "st4 (step e (Recv4 r now) s) = st4 s \<and> eng (step e (Recv4 r now) s) = eng s
         \<and> st6 (step e (Recv6 r now) s) = st6 s \<and> eng (step e (Recv6 r now) s) = eng s"
  using assms by (simp add: step_def recvIpv4_iter_def recvIpv6_iter_def Let_def)

subsection \<open>Statistics\<close>

lemma Statistics_loop_last:
  "Statistics_loop ks bp st a =
     (case filter (\<lambda>k. map_option addr (mapSeqPinger bp k) = Some a) ks of
        [] \<Rightarrow> st a
      | f # fs \<Rightarrow> map_option pinger_Statistics (mapSeqPinger bp (last (f # fs))))"
proof (induction ks arbitrary: st)
  case Nil
  then show ?case by simp
next
  case (Cons k ks)
  show ?case
  proof (cases "mapSeqPinger bp k")
    case None
    then show ?thesis using Cons.IH [of st] by simp
  next
    case (Some p)
    let ?st = "st(addr p \<mapsto> pinger_Statistics p)"
    let ?f = "filter (\<lambda>k. map_option addr (mapSeqPinger bp k) = Some a) ks"
    have hd: "Statistics_loop (k # ks) bp st a = Statistics_loop ks bp ?st a"
      using Some by simp
    have ih: "Statistics_loop ks bp ?st a =
                (case ?f of [] \<Rightarrow> ?st a
                 | f # fs \<Rightarrow> map_option pinger_Statistics (mapSeqPinger bp (last (f # fs))))"
      by (rule Cons.IH)
    show ?thesis
    proof (cases ?f)
      case Nil
      then show ?thesis
        unfolding hd ih using Some by (cases "addr p = a") simp_all
    next
      case (Cons f fs)
      then show ?thesis
        unfolding hd ih using Some by (cases "addr p = a") simp_all
    qed
  qed
qed

lemma Statistics_entry:
  "Statistics order b a =
     (case filter (\<lambda>k. map_option addr (mapSeqPinger b k) = Some a) order of
        [] \<Rightarrow> None
      | f # fs \<Rightarrow> map_option pinger_Statistics (mapSeqPinger b (last (f # fs))))"
  by (simp add: Statistics_def Statistics_loop_last)

lemma Statistics_dom:
  "dom (Statistics order b) =
     {a. \<exists>k\<in>set order. map_option addr (mapSeqPinger b k) = Some a}"
proof -
  have "(Statistics order b a \<noteq> None) =
          (\<exists>k\<in>set order. map_option addr (mapSeqPinger b k) = Some a)" for a
  proof (cases "filter (\<lambda>k. map_option addr (mapSeqPinger b k) = Some a) order")
    case Nil
    then have "\<forall>k\<in>set order. map_option addr (mapSeqPinger b k) \<noteq> Some a"
      by (simp add: filter_empty_conv)
    with Nil show ?thesis by (simp add: Statistics_entry)
  next
    case (Cons f fs)
    then have "last (f # fs) \<in> set (filter (\<lambda>k. map_option addr (mapSeqPinger b k) = Some a) order)"
      by (metis last_in_set list.distinct(1))
    then have l: "last (f # fs) \<in> set order"
      "map_option addr (mapSeqPinger b (last (f # fs))) = Some a"
      by auto
    then have "mapSeqPinger b (last (f # fs)) \<noteq> None" by auto
    with Cons l show ?thesis by (auto simp: Statistics_entry)
  qed
  then show ?thesis by (auto simp: dom_def)
qed

section \<open>The claims\<close>

text \<open>
  C1. Every socket that \<^verbatim>\<open>Run\<close> has opened is closed before it returns, on every
  exit path. The code does not do this on two of its paths: the two \<^verbatim>\<open>Close\<close> calls
  are deferred only after the loop over the addresses, so a return before that point
  leaves open what was opened. When the IPv6 socket fails to open, \<^verbatim>\<open>Run\<close> returns the
  error with the IPv4 socket open; when \<^verbatim>\<open>NewPinger\<close> fails, it returns the error with
  both sockets open.
\<close>
theorem Run_early_return_leaves_sockets_open:
  "(ListenPacket e (ipv4Proto e (network bp)) (source bp) = None
      \<and> ListenPacket e (ipv6Proto e (network bp)) (source bp) = Some err
    \<longrightarrow> Run e evs bp = Returned (Some err) (bp\<lparr>conn4 := SockOpen, conn6 := NotOpened\<rparr>))
   \<and> (ListenPacket e (ipv4Proto e (network bp)) (source bp) = None
      \<and> ListenPacket e (ipv6Proto e (network bp)) (source bp) = None
      \<and> fst (build_targets e (addrs bp) 0 (bp\<lparr>conn4 := SockOpen, conn6 := SockOpen\<rparr>)) = Some err
    \<longrightarrow> (\<exists>b. Run e evs bp = Returned (Some err) b \<and> conn4 b = SockOpen \<and> conn6 b = SockOpen))"
proof (intro conjI impI)
  assume "ListenPacket e (ipv4Proto e (network bp)) (source bp) = None
      \<and> ListenPacket e (ipv6Proto e (network bp)) (source bp) = Some err"
  then show "Run e evs bp = Returned (Some err) (bp\<lparr>conn4 := SockOpen, conn6 := NotOpened\<rparr>)"
    by (simp add: Run_def)
next
  assume a: "ListenPacket e (ipv4Proto e (network bp)) (source bp) = None
      \<and> ListenPacket e (ipv6Proto e (network bp)) (source bp) = None
      \<and> fst (build_targets e (addrs bp) 0 (bp\<lparr>conn4 := SockOpen, conn6 := SockOpen\<rparr>)) = Some err"
  obtain r b where rb: "build_targets e (addrs bp) 0 (bp\<lparr>conn4 := SockOpen, conn6 := SockOpen\<rparr>) = (r, b)"
    by (cases "build_targets e (addrs bp) 0 (bp\<lparr>conn4 := SockOpen, conn6 := SockOpen\<rparr>)")
  with a have r: "r = Some err" by simp
  from build_targets_frame [OF rb] have "conn4 b = SockOpen" "conn6 b = SockOpen" by simp_all
  moreover from a rb r have "Run e evs bp = Returned (Some err) b"
    by (simp add: Run_def)
  ultimately show "\<exists>b. Run e evs bp = Returned (Some err) b \<and> conn4 b = SockOpen \<and> conn6 b = SockOpen"
    by blast
qed

text \<open>
  The two early returns on the concrete environment: the IPv6 socket cannot be opened, and
  the address b does not resolve.
\<close>
theorem Run_early_return_leaves_sockets_open_witness:
  "Run demo_env_no6 [] demo_bp
     = Returned (Some (ListenFailed ''udp6'')) (demo_bp\<lparr>conn4 := SockOpen, conn6 := NotOpened\<rparr>)
   \<and> (\<exists>b. Run demo_env_unresolved [] demo_bp = Returned (Some (NewPingerFailed ''b'')) b
          \<and> conn4 b = SockOpen \<and> conn6 b = SockOpen)"
proof -
  have a: "ListenPacket demo_env_no6 (ipv4Proto demo_env_no6 (network demo_bp)) (source demo_bp) = None
      \<and> ListenPacket demo_env_no6 (ipv6Proto demo_env_no6 (network demo_bp)) (source demo_bp)
          = Some (ListenFailed ''udp6'')"
    by (simp add: demo_defs)
  have b: "ListenPacket demo_env_unresolved (ipv4Proto demo_env_unresolved (network demo_bp))
             (source demo_bp) = None
      \<and> ListenPacket demo_env_unresolved (ipv6Proto demo_env_unresolved (network demo_bp))
             (source demo_bp) = None
      \<and> fst (build_targets demo_env_unresolved (addrs demo_bp) 0
                (demo_bp\<lparr>conn4 := SockOpen, conn6 := SockOpen\<rparr>)) = Some (NewPingerFailed ''b'')"
    by (simp add: demo_defs NewPinger_def)
  from Run_early_return_leaves_sockets_open [of demo_env_no6 demo_bp "ListenFailed ''udp6''" "[]"]
       Run_early_return_leaves_sockets_open [of demo_env_unresolved demo_bp "NewPingerFailed ''b''" "[]"]
       a b
  show ?thesis by blast
qed

text \<open>
  C2. In each receiver loop a read that fails with a non-timeout error ends the loop, and
  a read that times out lets it continue. The IPv4 loop does so
  (\<open>recvIpv4_exits_on_read_error\<close>, \<open>recv_continues_on_timeout\<close>); the IPv6 loop has no
  branch for the non-timeout error: it stays in its loop and hands the buffer to
  \<^verbatim>\<open>processPacket\<close>.
\<close>
theorem recvIpv6_continues_on_read_error:
  assumes "panic s = None" and "st6 s = Running" and "\<not> done_ch (eng s)"
      and "rd_err r = Some (OpError False)"
  shows "st6 (step e (Recv6 r now) s) = Running
         \<and> eng (step e (Recv6 r now) s) =
             snd (processPacket e now
                    \<lparr>bytes = rd_bytes r, nbytes = rd_n r,
                     ttl = (case rd_cm r of Some c \<Rightarrow> c | None \<Rightarrow> ttl6 s), proto = protoIpv6\<rparr>
                    (eng s))"
  using assms by (simp add: step_def recvIpv6_iter_def Let_def)

text \<open>
  The same failed read on the concrete engine: the IPv6 receiver keeps running, the IPv4
  receiver exits.
\<close>
theorem recvIpv6_continues_on_read_error_witness:
  "panic (spawn demo_bp3) = None \<and> st6 (spawn demo_bp3) = Running
   \<and> \<not> done_ch (eng (spawn demo_bp3)) \<and> rd_err demo_read_failure = Some (OpError False)
   \<and> st6 (step demo_env (Recv6 demo_read_failure 0) (spawn demo_bp3)) = Running
   \<and> st4 (step demo_env (Recv4 demo_read_failure 0) (spawn demo_bp3)) = Exited"
proof -
  have h: "panic (spawn demo_bp3) = None" "st6 (spawn demo_bp3) = Running"
    "\<not> done_ch (eng (spawn demo_bp3))" "rd_err demo_read_failure = Some (OpError False)"
    by (simp_all add: demo_defs spawn_def)
  have v4: "st4 (step demo_env (Recv4 demo_read_failure 0) (spawn demo_bp3)) = Exited"
    by (simp add: demo_defs spawn_def step_def recvIpv4_iter_def)
  from recvIpv6_continues_on_read_error [OF h, of demo_env 0] h v4
  show ?thesis by simp
qed




text \<open>
  C4. A decoded echo reply whose identifier is not the identifier of the engine leaves
  the engine, and so the received counter and the RTT samples of every Target, as they
  were, and no error is returned.
\<close>
theorem processPacket_foreign_id:
  assumes "ParseMessage e (if proto recv = protoIpv4 then protocolICMP e else protocolIPv6ICMP e)
             (bytes recv) = Inr m"
      and "Body m = Echo pkt"
      and "ID pkt \<noteq> bpid bp"
  shows "processPacket e receivedAt recv bp = (None, bp)"
  using assms by (simp add: processPacket_def)

text \<open>
  A reply with identifier 9 processed by the engine of process 7.
\<close>
theorem processPacket_foreign_id_witness:
  "ParseMessage demo_env
     (if proto (demo_packet 9 1 (replicate 16 0)) = protoIpv4 then protocolICMP demo_env
      else protocolIPv6ICMP demo_env)
     (bytes (demo_packet 9 1 (replicate 16 0)))
     = Inr \<lparr>Type = IPv4Type 0, Code = 0, Body = Echo \<lparr>ID = 9, Seq = 1, Data = replicate 16 0\<rparr>\<rparr>
   \<and> ID \<lparr>ID = 9, Seq = 1, Data = replicate 16 (0 :: byte)\<rparr> \<noteq> bpid demo_bp3
   \<and> processPacket demo_env 5 (demo_packet 9 1 (replicate 16 0)) demo_bp3 = (None, demo_bp3)"
proof -
  have p: "ParseMessage demo_env
     (if proto (demo_packet 9 1 (replicate 16 0)) = protoIpv4 then protocolICMP demo_env
      else protocolIPv6ICMP demo_env)
     (bytes (demo_packet 9 1 (replicate 16 0)))
     = Inr \<lparr>Type = IPv4Type 0, Code = 0, Body = Echo \<lparr>ID = 9, Seq = 1, Data = replicate 16 0\<rparr>\<rparr>"
    by (simp add: demo_defs)
  have b: "Body \<lparr>Type = IPv4Type 0, Code = 0,
                 Body = Echo \<lparr>ID = 9, Seq = 1, Data = replicate 16 (0 :: byte)\<rparr>\<rparr>
           = Echo \<lparr>ID = 9, Seq = 1, Data = replicate 16 0\<rparr>"
    by simp
  have i: "ID \<lparr>ID = 9, Seq = 1, Data = replicate 16 (0 :: byte)\<rparr> \<noteq> bpid demo_bp3"
    by (simp add: demo_defs)
  from processPacket_foreign_id [OF p b i, of 5] p i show ?thesis by simp
qed

text \<open>
  C5. A decoded echo reply whose sequence number is not a key of the map returns no error
  and leaves the engine, and so the sent and received counters and the RTT samples of
  every Target, as they were. Both callers of \<^verbatim>\<open>processPacket\<close> hand it the whole read
  buffer of 512 bytes, and the echo body that the decoder returns holds all of the
  message but its header of 8 bytes; \<^verbatim>\<open>timeSliceLength + trackerLength\<close> is at most the
  504 bytes that remain, so the check of the payload length never fires on such a reply.
\<close>

theorem processPacket_unknown_seq:
  assumes "ParseMessage e (if proto recv = protoIpv4 then protocolICMP e else protocolIPv6ICMP e)
             (bytes recv) = Inr m"
      and "Body m = Echo pkt"
      and "mapSeqPinger bp (Seq pkt) = None"
      and "length (bytes recv) = 512"
      and "length (bytes recv) \<le> length (Data pkt) + 8"
      and "timeSliceLength e + trackerLength e \<le> 504"
  shows "processPacket e receivedAt recv bp = (None, bp)"
  using assms by (simp add: processPacket_def Let_def)

text \<open>
  A buffer of 512 bytes holding an echo reply with the identifier of the engine and the
  unknown sequence number 9.
\<close>

theorem processPacket_unknown_seq_witness:
  "ParseMessage demo_env
     (if proto (demo_packet 7 9 (replicate 509 0)) = protoIpv4 then protocolICMP demo_env
      else protocolIPv6ICMP demo_env)
     (bytes (demo_packet 7 9 (replicate 509 0)))
     = Inr \<lparr>Type = IPv4Type 0, Code = 0, Body = Echo \<lparr>ID = 7, Seq = 9, Data = replicate 509 0\<rparr>\<rparr>
   \<and> mapSeqPinger demo_bp3 (Seq \<lparr>ID = 7, Seq = 9, Data = replicate 509 (0 :: byte)\<rparr>) = None
   \<and> length (bytes (demo_packet 7 9 (replicate 509 0))) = 512
   \<and> timeSliceLength demo_env + trackerLength demo_env \<le> 504
   \<and> processPacket demo_env 5 (demo_packet 7 9 (replicate 509 0)) demo_bp3 = (None, demo_bp3)"
proof -
  let ?d = "replicate 509 (0 :: byte)"
  have p: "ParseMessage demo_env
     (if proto (demo_packet 7 9 ?d) = protoIpv4 then protocolICMP demo_env
      else protocolIPv6ICMP demo_env)
     (bytes (demo_packet 7 9 ?d))
     = Inr \<lparr>Type = IPv4Type 0, Code = 0, Body = Echo \<lparr>ID = 7, Seq = 9, Data = ?d\<rparr>\<rparr>"
    by (simp add: demo_defs)
  have b: "Body \<lparr>Type = IPv4Type 0, Code = 0, Body = Echo \<lparr>ID = 7, Seq = 9, Data = ?d\<rparr>\<rparr>
           = Echo \<lparr>ID = 7, Seq = 9, Data = ?d\<rparr>"
    by simp
  have n: "mapSeqPinger demo_bp3 (Seq \<lparr>ID = 7, Seq = 9, Data = ?d\<rparr>) = None"
    by (simp add: demo_defs)
  have l: "length (bytes (demo_packet 7 9 ?d)) = 512"
    by (simp add: demo_packet_def)
  have k: "length (bytes (demo_packet 7 9 ?d)) \<le> length (Data \<lparr>ID = 7, Seq = 9, Data = ?d\<rparr>) + 8"
    by (simp add: demo_packet_def)
  have c: "timeSliceLength demo_env + trackerLength demo_env \<le> 504"
    by (simp add: demo_defs)
  from processPacket_unknown_seq [OF p b n l k c, of 5] p n l c show ?thesis by blast
qed

text \<open>
  C6, as amended. The code does not compare the two counters. Along any sequence of
  events, a Target's sent counter grows by the number of rounds the sender has completed,
  its received counter never decreases and grows by at most the number of reads that
  credit its sequence number; so received stays at most sent as long as no more such
  replies have been read than rounds were completed.
\<close>
theorem received_le_sent_when_replies_le_rounds:
  assumes "mapSeqPinger (eng s) q = Some p"
  shows "\<exists>p'. mapSeqPinger (eng (run_loops e evs s)) q = Some p'
           \<and> PacketsSent p' = PacketsSent p + (sendCount (eng (run_loops e evs s)) - sendCount (eng s))
           \<and> PacketsRecv p \<le> PacketsRecv p'
           \<and> PacketsRecv p' \<le> PacketsRecv p + int (length (filter (credits e (bpid (eng s)) q) evs))
           \<and> (PacketsRecv p \<le> PacketsSent p
                \<and> int (length (filter (credits e (bpid (eng s)) q) evs))
                    \<le> sendCount (eng (run_loops e evs s)) - sendCount (eng s)
              \<longrightarrow> PacketsRecv p' \<le> PacketsSent p')"
  using run_counters [OF assms, of e evs] by auto

text \<open>
  One round and one reply for the first Target.
\<close>
theorem received_le_sent_when_replies_le_rounds_witness:
  "mapSeqPinger (eng (spawn demo_bp3)) 1 = Some (demo_pinger ''a'' 1)
   \<and> (\<exists>p'. mapSeqPinger (eng (run_loops demo_env [Send SelInterval, Recv4 (demo_reply 7 1) 5]
                                 (spawn demo_bp3))) 1 = Some p'
          \<and> PacketsSent p' = 1 \<and> PacketsRecv p' \<le> 1 \<and> PacketsRecv p' \<le> PacketsSent p')"
proof -
  let ?evs = "[Send SelInterval, Recv4 (demo_reply 7 1) 5]"
  let ?s = "run_loops demo_env ?evs (spawn demo_bp3)"
  have h: "mapSeqPinger (eng (spawn demo_bp3)) 1 = Some (demo_pinger ''a'' 1)"
    by (simp add: demo_defs spawn_def)
  have c: "sendCount (eng ?s) - sendCount (eng (spawn demo_bp3)) = 1"
    by (simp add: demo_defs model_defs)
  have f: "int (length (filter (credits demo_env (bpid (eng (spawn demo_bp3))) 1) ?evs)) = 1"
    by (simp add: demo_defs spawn_def accepted_seq_def
        ipv4_ICMPTypeEchoReply_def ipv6_ICMPTypeEchoReply_def)
  have z: "PacketsSent (demo_pinger ''a'' 1) = 0" "PacketsRecv (demo_pinger ''a'' 1) = 0"
    by (simp_all add: demo_pinger_def)
  from received_le_sent_when_replies_le_rounds [OF h, of demo_env ?evs]
  obtain p' where "mapSeqPinger (eng ?s) 1 = Some p'"
    "PacketsSent p' = PacketsSent (demo_pinger ''a'' 1)
        + (sendCount (eng ?s) - sendCount (eng (spawn demo_bp3)))"
    "PacketsRecv p' \<le> PacketsRecv (demo_pinger ''a'' 1)
        + int (length (filter (credits demo_env (bpid (eng (spawn demo_bp3))) 1) ?evs))"
    "PacketsRecv (demo_pinger ''a'' 1) \<le> PacketsSent (demo_pinger ''a'' 1)
       \<and> int (length (filter (credits demo_env (bpid (eng (spawn demo_bp3))) 1) ?evs))
           \<le> sendCount (eng ?s) - sendCount (eng (spawn demo_bp3))
     \<longrightarrow> PacketsRecv p' \<le> PacketsSent p'"
    by blast
  then have "mapSeqPinger (eng ?s) 1 = Some p' \<and> PacketsSent p' = 1 \<and> PacketsRecv p' \<le> 1
               \<and> PacketsRecv p' \<le> PacketsSent p'"
    unfolding c f z by simp
  with h show ?thesis by blast
qed

text \<open>
  C6 as stated fails: after one round, a reply for the first Target that is read twice
  gives received = 2 and sent = 1.
\<close>
theorem received_exceeds_sent_counterexample:
  "\<exists>b p. Run demo_env [Send SelInterval, Recv4 (demo_reply 7 1) 5, Recv4 (demo_reply 7 1) 6] demo_bp
            = Waiting b
         \<and> mapSeqPinger b 1 = Some p \<and> PacketsSent p = 1 \<and> PacketsRecv p = 2"
proof -
  let ?s = "run_loops demo_env [Send SelInterval, Recv4 (demo_reply 7 1) 5, Recv4 (demo_reply 7 1) 6]
              (spawn demo_bp3)"
  have p: "panic ?s = None" by (simp add: demo_defs model_defs)
  have r: "stS ?s \<noteq> Exited" by (simp add: demo_defs model_defs)
  have m: "map_option (\<lambda>p. (PacketsSent p, PacketsRecv p)) (mapSeqPinger (eng ?s) 1) = Some (1, 2)"
    by (simp add: demo_defs model_defs)
  note Run_waits [OF demo_setup p r]
  with m show ?thesis by auto
qed

text \<open>
  C7. \<^verbatim>\<open>Run\<close>, called on an engine with an empty map, gives the i-th address the
  sequence ID i, counting from 1: whenever it gets past its set-up, the map holds for each
  position of the input a Target with that address and that sequence ID under that key,
  its keys are exactly 1 to the number of addresses, and different Targets have different
  sequence IDs.
\<close>
theorem Run_assigns_sequence_ids:
  assumes "mapSeqPinger bp = Map.empty"
      and "Run e evs bp = Returned None b \<or> Run e evs bp = Waiting b"
  shows "(\<forall>i<length (addrs bp). \<exists>p. mapSeqPinger b (int i + 1) = Some p
             \<and> addr p = addrs bp ! i \<and> sequence p = int i + 1)
         \<and> dom (mapSeqPinger b) = {1..int (length (addrs bp))}
         \<and> (\<forall>k k' p p'. mapSeqPinger b k = Some p \<and> mapSeqPinger b k' = Some p' \<and> k \<noteq> k'
               \<longrightarrow> sequence p \<noteq> sequence p')"
proof -
  note t = Run_targets [OF assms]
  from t have one: "\<forall>i<length (addrs bp). \<exists>p. mapSeqPinger b (int i + 1) = Some p
             \<and> addr p = addrs bp ! i \<and> sequence p = int i + 1"
    and out: "\<forall>j. j \<le> 0 \<or> int (length (addrs bp)) < j \<longrightarrow> mapSeqPinger b j = None"
    by blast+
  have key: "\<And>k p. mapSeqPinger b k = Some p \<Longrightarrow>
               1 \<le> k \<and> k \<le> int (length (addrs bp)) \<and> sequence p = k"
    using targets_key [OF one out] by blast
  have sub: "dom (mapSeqPinger b) \<subseteq> {1..int (length (addrs bp))}"
    using key by auto
  have sup: "{1..int (length (addrs bp))} \<subseteq> dom (mapSeqPinger b)"
  proof
    fix k assume "k \<in> {1..int (length (addrs bp))}"
    then have "nat (k - 1) < length (addrs bp)" and "int (nat (k - 1)) + 1 = k" by auto
    with one show "k \<in> dom (mapSeqPinger b)" by (metis domI)
  qed
  have dist: "\<forall>k k' p p'. mapSeqPinger b k = Some p \<and> mapSeqPinger b k' = Some p' \<and> k \<noteq> k'
               \<longrightarrow> sequence p \<noteq> sequence p'"
    using key by metis
  from one sub sup dist show ?thesis by blast
qed

text \<open>
  The addresses a, b, a get the sequence IDs 1, 2, 3.
\<close>
theorem Run_assigns_sequence_ids_witness:
  "mapSeqPinger demo_bp = Map.empty
   \<and> (\<exists>b. Run demo_env [Send SelInterval] demo_bp = Waiting b
          \<and> dom (mapSeqPinger b) = {1..3}
          \<and> map_option addr (mapSeqPinger b 1) = Some ''a''
          \<and> map_option addr (mapSeqPinger b 2) = Some ''b''
          \<and> map_option addr (mapSeqPinger b 3) = Some ''a''
          \<and> map_option sequence (mapSeqPinger b 3) = Some 3)"
proof -
  let ?s = "run_loops demo_env [Send SelInterval] (spawn demo_bp3)"
  have e: "mapSeqPinger demo_bp = Map.empty" by (simp add: demo_defs)
  have p: "panic ?s = None" by (simp add: demo_defs model_defs)
  have r: "stS ?s \<noteq> Exited" by (simp add: demo_defs model_defs)
  note w = Run_waits [OF demo_setup p r]
  have a: "addrs demo_bp = [''a'', ''b'', ''a'']" by (simp add: demo_defs)
  note t = Run_assigns_sequence_ids [OF e disjI2 [OF w]]
  from t have all: "\<And>i. i < 3 \<Longrightarrow> \<exists>p. mapSeqPinger (eng ?s) (int i + 1) = Some p
               \<and> addr p = [''a'', ''b'', ''a''] ! i \<and> sequence p = int i + 1"
    unfolding a by simp
  from t have "dom (mapSeqPinger (eng ?s)) = {1..int (length (addrs demo_bp))}"
    by (rule conjunct1 [OF conjunct2])
  then have d: "dom (mapSeqPinger (eng ?s)) = {1..3}"
    by (simp add: a)
  from all [of 0] have m1: "map_option addr (mapSeqPinger (eng ?s) 1) = Some ''a''"
    by auto
  from all [of 1] have m2: "map_option addr (mapSeqPinger (eng ?s) 2) = Some ''b''"
    by auto
  from all [of 2] have m3: "map_option addr (mapSeqPinger (eng ?s) 3) = Some ''a''"
    "map_option sequence (mapSeqPinger (eng ?s) 3) = Some 3"
    by auto
  from e w d m1 m2 m3 show ?thesis by blast
qed

text \<open>
  C8, as amended. For a Target whose received counter is at most its sent counter, the
  loss fraction is (sent - received) / sent, 0 when sent is 0, and lies between 0 and 1.
\<close>
theorem loss_fraction_range:
  assumes "0 \<le> PacketsRecv p" and "PacketsRecv p \<le> PacketsSent p"
  shows "st_loss (pinger_Statistics p) =
           (if PacketsSent p = 0 then 0
            else of_int (PacketsSent p - PacketsRecv p) / of_int (PacketsSent p))
         \<and> 0 \<le> st_loss (pinger_Statistics p) \<and> st_loss (pinger_Statistics p) \<le> 1"
  using assms by (simp add: pinger_Statistics_def)

text \<open>
  A Target with 4 sent and 3 received has loss 1/4; a fresh Target has loss 0.
\<close>
theorem loss_fraction_range_witness:
  "0 \<le> PacketsRecv ((demo_pinger ''a'' 1)\<lparr>PacketsSent := 4, PacketsRecv := 3\<rparr>)
   \<and> PacketsRecv ((demo_pinger ''a'' 1)\<lparr>PacketsSent := 4, PacketsRecv := 3\<rparr>)
       \<le> PacketsSent ((demo_pinger ''a'' 1)\<lparr>PacketsSent := 4, PacketsRecv := 3\<rparr>)
   \<and> st_loss (pinger_Statistics ((demo_pinger ''a'' 1)\<lparr>PacketsSent := 4, PacketsRecv := 3\<rparr>)) = 1 / 4
   \<and> st_loss (pinger_Statistics (demo_pinger ''a'' 1)) = 0"
proof -
  let ?p = "(demo_pinger ''a'' 1)\<lparr>PacketsSent := 4, PacketsRecv := 3\<rparr>"
  have h: "0 \<le> PacketsRecv ?p" "PacketsRecv ?p \<le> PacketsSent ?p"
    by (simp_all add: demo_pinger_def)
  have h0: "0 \<le> PacketsRecv (demo_pinger ''a'' 1)"
    "PacketsRecv (demo_pinger ''a'' 1) \<le> PacketsSent (demo_pinger ''a'' 1)"
    by (simp_all add: demo_pinger_def)
  from loss_fraction_range [OF h] loss_fraction_range [OF h0] h
  show ?thesis by (simp add: demo_pinger_def)
qed

text \<open>
  C8 as stated fails: in a run that returns, the Target of address b is sent one
  request and its reply is read twice; its loss fraction is -1.
\<close>
theorem loss_fraction_negative_counterexample:
  "\<exists>b. Run demo_env [Send SelInterval, Recv4 (demo_reply 7 2) 5, Recv4 (demo_reply 7 2) 6,
                      Send SelTimeout, Recv4 (demo_reply 7 2) 7, Recv6 (demo_reply 7 2) 7] demo_bp
          = Returned None b
       \<and> map_option st_loss (Statistics [1, 2, 3] b ''b'') = Some (- 1)"
proof -
  let ?s = "run_loops demo_env [Send SelInterval, Recv4 (demo_reply 7 2) 5, Recv4 (demo_reply 7 2) 6,
                      Send SelTimeout, Recv4 (demo_reply 7 2) 7, Recv6 (demo_reply 7 2) 7]
              (spawn demo_bp3)"
  have p: "panic ?s = None" by (simp add: demo_defs model_defs)
  have r4: "st4 ?s = Exited" by (simp add: demo_defs model_defs)
  have r6: "st6 ?s = Exited" by (simp add: demo_defs model_defs)
  have rS: "stS ?s = Exited" by (simp add: demo_defs model_defs)
  have m: "map_option st_loss
             (Statistics [1, 2, 3] ((eng ?s)\<lparr>conn6 := SockClosed, conn4 := SockClosed\<rparr>) ''b'')
           = Some (- 1)"
    by (simp add: demo_defs model_defs Statistics_def pinger_Statistics_def)
  note Run_returns [OF demo_setup p r4 r6 rS]
  with m show ?thesis by blast
qed

text \<open>
  C9. \<^verbatim>\<open>NewBatchPinger\<close> returns an error exactly when more than 65535 addresses are
  given; with at most 65535 addresses it returns an engine (holding these addresses) and
  no error.
\<close>
theorem NewBatchPinger_error_iff:
  "isl (NewBatchPinger pid as privileged) = (65535 < length as)
   \<and> ((\<exists>bp. NewBatchPinger pid as privileged = Inr bp \<and> addrs bp = as) = (length as \<le> 65535))"
  by (auto simp: NewBatchPinger_def Let_def)

text \<open>
  C10. After a run on an engine that started with an empty map, there is one Target per
  position of the input, but \<^verbatim>\<open>Statistics\<close> is keyed by address: its keys are the
  distinct addresses, the entry of an address is the statistics of the Target with that
  address that the loop visits last, and when an address occurs more than once the
  result has fewer entries than there are Targets.
\<close>
theorem Statistics_collapses_duplicate_addresses:
  assumes "mapSeqPinger bp = Map.empty"
      and "Run e evs bp = Returned None b"
      and "distinct order" and "set order = dom (mapSeqPinger b)"
  shows "(\<forall>i<length (addrs bp). \<exists>p. mapSeqPinger b (int i + 1) = Some p \<and> addr p = addrs bp ! i)
         \<and> card (dom (mapSeqPinger b)) = length (addrs bp)
         \<and> dom (Statistics order b) = set (addrs bp)
         \<and> (\<forall>a\<in>set (addrs bp).
               Statistics order b a =
                 map_option pinger_Statistics
                   (mapSeqPinger b
                      (last (filter (\<lambda>k. map_option addr (mapSeqPinger b k) = Some a) order))))
         \<and> (\<not> distinct (addrs bp) \<longrightarrow>
               card (dom (Statistics order b)) < card (dom (mapSeqPinger b)))"
proof -
  let ?n = "length (addrs bp)"
  from assms(2) have r: "Run e evs bp = Returned None b \<or> Run e evs bp = Waiting b" by simp
  note t = Run_targets [OF assms(1) r]
  from t have one: "\<forall>i<?n. \<exists>p. mapSeqPinger b (int i + 1) = Some p
             \<and> addr p = addrs bp ! i \<and> sequence p = int i + 1"
    and out: "\<forall>j. j \<le> 0 \<or> int ?n < j \<longrightarrow> mapSeqPinger b j = None"
    by blast+
  have key: "\<And>k p. mapSeqPinger b k = Some p \<Longrightarrow>
               1 \<le> k \<and> k \<le> int ?n \<and> addr p = addrs bp ! nat (k - 1)"
    using targets_key [OF one out] by blast
  have d: "dom (mapSeqPinger b) = {1..int ?n}"
  proof
    show "dom (mapSeqPinger b) \<subseteq> {1..int ?n}" using key by auto
    show "{1..int ?n} \<subseteq> dom (mapSeqPinger b)"
    proof
      fix k assume "k \<in> {1..int ?n}"
      then have "nat (k - 1) < ?n" and "int (nat (k - 1)) + 1 = k" by auto
      with one show "k \<in> dom (mapSeqPinger b)" by (metis domI)
    qed
  qed
  have c: "card (dom (mapSeqPinger b)) = ?n"
    by (simp add: d)
  have sd: "dom (Statistics order b) = set (addrs bp)"
  proof
    show "dom (Statistics order b) \<subseteq> set (addrs bp)"
    proof
      fix a assume "a \<in> dom (Statistics order b)"
      then obtain k where "map_option addr (mapSeqPinger b k) = Some a"
        by (auto simp: Statistics_dom)
      then obtain p where p: "mapSeqPinger b k = Some p" "addr p = a" by auto
      from key [OF p(1)] have "nat (k - 1) < ?n" "addr p = addrs bp ! nat (k - 1)" by auto
      with p(2) show "a \<in> set (addrs bp)" by (metis nth_mem)
    qed
    show "set (addrs bp) \<subseteq> dom (Statistics order b)"
    proof
      fix a assume "a \<in> set (addrs bp)"
      then obtain i where i: "i < ?n" "addrs bp ! i = a" by (auto simp: in_set_conv_nth)
      with one obtain p where p: "mapSeqPinger b (int i + 1) = Some p" "addr p = a" by blast
      then have "int i + 1 \<in> set order" using assms(4) by auto
      with p show "a \<in> dom (Statistics order b)"
        by (auto simp: Statistics_dom intro!: bexI [of _ "int i + 1"])
    qed
  qed
  have e: "\<forall>a\<in>set (addrs bp).
               Statistics order b a =
                 map_option pinger_Statistics
                   (mapSeqPinger b
                      (last (filter (\<lambda>k. map_option addr (mapSeqPinger b k) = Some a) order)))"
  proof
    fix a assume "a \<in> set (addrs bp)"
    with sd have "Statistics order b a \<noteq> None" by auto
    then show "Statistics order b a =
                 map_option pinger_Statistics
                   (mapSeqPinger b
                      (last (filter (\<lambda>k. map_option addr (mapSeqPinger b k) = Some a) order)))"
      by (simp add: Statistics_entry split: list.splits)
  qed
  have l: "\<not> distinct (addrs bp) \<longrightarrow>
               card (dom (Statistics order b)) < card (dom (mapSeqPinger b))"
  proof
    assume nd: "\<not> distinct (addrs bp)"
    have "card (set (addrs bp)) \<le> ?n" by (rule card_length)
    moreover have "card (set (addrs bp)) \<noteq> ?n" using nd card_distinct by blast
    ultimately show "card (dom (Statistics order b)) < card (dom (mapSeqPinger b))"
      by (simp add: sd c)
  qed
  from one c sd e l show ?thesis by blast
qed

text \<open>
  The addresses a, b, a: three Targets, two entries.
\<close>
theorem Statistics_collapses_duplicate_addresses_witness:
  "mapSeqPinger demo_bp = Map.empty \<and> distinct [1, 2, 3 :: int]
   \<and> (\<exists>b. Run demo_env [Send SelTimeout, Recv4 (demo_reply 7 1) 7, Recv6 (demo_reply 7 1) 7] demo_bp
            = Returned None b
          \<and> set [1, 2, 3] = dom (mapSeqPinger b)
          \<and> card (dom (mapSeqPinger b)) = 3
          \<and> dom (Statistics [1, 2, 3] b) = {''a'', ''b''}
          \<and> card (dom (Statistics [1, 2, 3] b)) < card (dom (mapSeqPinger b)))"
proof -
  let ?evs = "[Send SelTimeout, Recv4 (demo_reply 7 1) 7, Recv6 (demo_reply 7 1) 7]"
  let ?s = "run_loops demo_env ?evs (spawn demo_bp3)"
  let ?b = "(eng ?s)\<lparr>conn6 := SockClosed, conn4 := SockClosed\<rparr>"
  have e: "mapSeqPinger demo_bp = Map.empty" by (simp add: demo_defs)
  have p: "panic ?s = None" by (simp add: demo_defs model_defs)
  have r4: "st4 ?s = Exited" by (simp add: demo_defs model_defs)
  have r6: "st6 ?s = Exited" by (simp add: demo_defs model_defs)
  have rS: "stS ?s = Exited" by (simp add: demo_defs model_defs)
  note w = Run_returns [OF demo_setup p r4 r6 rS]
  have a: "addrs demo_bp = [''a'', ''b'', ''a'']" by (simp add: demo_defs)
  have i: "{1..3 :: int} = {1, 2, 3}" by auto
  have o: "distinct [1, 2, 3 :: int]" by simp
  have d: "set [1, 2, 3] = dom (mapSeqPinger ?b)"
    using Run_dom [OF e disjI1 [OF w]] by (simp add: a i)
  have nd: "\<not> distinct (addrs demo_bp)" by (simp add: a)
  note t = Statistics_collapses_duplicate_addresses [OF e w o d]
  from t have "card (dom (mapSeqPinger ?b)) = length (addrs demo_bp)"
    by (rule conjunct1 [OF conjunct2])
  then have c: "card (dom (mapSeqPinger ?b)) = 3"
    by (simp add: a)
  from t have "dom (Statistics [1, 2, 3] ?b) = set (addrs demo_bp)"
    by (rule conjunct1 [OF conjunct2 [OF conjunct2]])
  then have sd: "dom (Statistics [1, 2, 3] ?b) = {''a'', ''b''}"
    by (simp add: a insert_commute)
  from t have "\<not> distinct (addrs demo_bp) \<longrightarrow>
                 card (dom (Statistics [1, 2, 3] ?b)) < card (dom (mapSeqPinger ?b))"
    by (rule conjunct2 [OF conjunct2 [OF conjunct2 [OF conjunct2]]])
  with nd have l: "card (dom (Statistics [1, 2, 3] ?b)) < card (dom (mapSeqPinger ?b))"
    by blast
  from e o w d c sd l show ?thesis by blast
qed

end
